theory Spec2Isabelle
  imports Complex_Main "HOL-Library.Sublist"
begin

section \<open>JavaScript strings and values\<close>

text \<open>
  Strings are character lists over ASCII. \<open>toLowerCase\<close> maps the letters A to Z to a to z
  and leaves every other character alone; \<open>str_includes\<close> is the substring test of
  \<open>String.prototype.includes\<close>; \<open>trim\<close> strips the ASCII white space at both ends.
\<close>

definition lower_char :: "char \<Rightarrow> char" where
  "lower_char c =
     (case map_of (zip ''ABCDEFGHIJKLMNOPQRSTUVWXYZ'' ''abcdefghijklmnopqrstuvwxyz'') c of
        None \<Rightarrow> c
      | Some l \<Rightarrow> l)"

definition toLowerCase :: "string \<Rightarrow> string" where
  "toLowerCase s = map lower_char s"

fun str_includes :: "string \<Rightarrow> string \<Rightarrow> bool" where
  "str_includes [] k = (k = [])"
| "str_includes (c # cs) k = (prefix k (c # cs) \<or> str_includes cs k)"

definition is_space :: "char \<Rightarrow> bool" where
  "is_space c = (c \<in> set [CHR 0x09, CHR 0x0A, CHR 0x0B, CHR 0x0C, CHR 0x0D, CHR '' ''])"

definition trim :: "string \<Rightarrow> string" where
  "trim s = rev (dropWhile is_space (rev (dropWhile is_space s)))"

definition is_alnum :: "char \<Rightarrow> bool" where
  "is_alnum c =
     (c \<in> set ''abcdefghijklmnopqrstuvwxyzABCDEFGHIJKLMNOPQRSTUVWXYZ0123456789'')"

text \<open>
  \<open>s.split(/[^a-z0-9]+/i)\<close>: the pieces between the maximal runs of separator characters,
  with an empty piece where the string starts or ends with a separator.
\<close>

function split_on :: "(char \<Rightarrow> bool) \<Rightarrow> string \<Rightarrow> string list" where
  "split_on sep [] = [[]]"
| "split_on sep (c # cs) =
     (if sep c then [] # split_on sep (dropWhile sep cs)
      else (case split_on sep cs of
              [] \<Rightarrow> [[c]]
            | t # ts \<Rightarrow> (c # t) # ts))"
  by pat_completeness auto
termination
  by (relation "measure (\<lambda>(sep, s). length s)") (auto simp: length_dropWhile_le less_Suc_eq_le)

text \<open>\<open>xs.filter(Boolean).join(" ")\<close> on strings.\<close>

fun join :: "string \<Rightarrow> string list \<Rightarrow> string" where
  "join sep [] = []"
| "join sep [x] = x"
| "join sep (x # y # ys) = x @ sep @ join sep (y # ys)"

definition filter_Boolean :: "string list \<Rightarrow> string list" where
  "filter_Boolean xs = filter (\<lambda>s. s \<noteq> []) xs"

text \<open>
  An optional string property: \<open>None\<close> is \<open>undefined\<close> or \<open>null\<close>. \<open>or_str x d\<close> is
  \<open>x || d\<close>: the empty string is falsy as well.
\<close>

definition or_str :: "string option \<Rightarrow> string \<Rightarrow> string" where
  "or_str x d = (case x of None \<Rightarrow> d | Some s \<Rightarrow> if s = [] then d else s)"

text \<open>A \<open>Set\<close> built from a list: insertion order, later duplicates dropped.\<close>

definition js_set :: "'a list \<Rightarrow> 'a list" where
  "js_set xs = foldl (\<lambda>acc x. if x \<in> set acc then acc else acc @ [x]) [] xs"

text \<open>\<open>xs.slice(0, e)\<close> for an integer \<open>e\<close>: a negative end counts from the end of the list.\<close>

definition slice0 :: "'a list \<Rightarrow> int \<Rightarrow> 'a list" where
  "slice0 xs e = (if e < 0 then take (nat (int (length xs) + e)) xs else take (nat e) xs)"

section \<open>Data model\<close>

text \<open>The normalized article of \<open>fetchArticlesForTopic\<close>: six string fields.\<close>

record article =
  title :: string
  description :: string
  url :: string
  source :: string
  publishedAt :: string
  urlToImage :: string

text \<open>The geography object; every property may be missing, and so may the object.\<close>

record geo =
  city :: "string option"
  region :: "string option"
  state :: "string option"
  country :: "string option"
  countryCode :: "string option"

definition CORE_CATEGORIES :: "string list" where
  "CORE_CATEGORIES =
     [''business'', ''entertainment'', ''general'', ''health'', ''science'', ''sports'',
      ''technology'', ''world'']"

definition geo_prop :: "geo option \<Rightarrow> (geo \<Rightarrow> string option) \<Rightarrow> string option" where
  "geo_prop g f = (case g of None \<Rightarrow> None | Some x \<Rightarrow> f x)"

section \<open>The relevance filter\<close>

definition geoTokens :: "geo option \<Rightarrow> string list" where
  "geoTokens g =
     js_set (filter (\<lambda>s. 2 \<le> length s)
       (map (\<lambda>s. toLowerCase (or_str s []))
          [geo_prop g city, geo_prop g region, geo_prop g country, geo_prop g countryCode]))"

definition topicTokens :: "string \<Rightarrow> string list" where
  "topicTokens topicLower =
     js_set (filter (\<lambda>s. s \<noteq> [] \<and> 3 \<le> length s)
       (map (\<lambda>s. toLowerCase (trim s)) (split_on (\<lambda>c. \<not> is_alnum c) topicLower)))"

fun textHasAny :: "string \<Rightarrow> string list \<Rightarrow> bool" where
  "textHasAny text [] = False"
| "textHasAny text (tok # toks) =
     (if tok \<noteq> [] \<and> str_includes (toLowerCase text) tok then True else textHasAny text toks)"

text \<open>The test of the first pass: whether the loop pushes the article to \<open>out\<close>.\<close>

definition strict_match :: "string \<Rightarrow> geo option \<Rightarrow> article \<Rightarrow> bool" where
  "strict_match topic g a =
     (let topicLower = toLowerCase topic;
          isLocal = (topicLower = ''local'');
          gts = geoTokens g;
          tts = topicTokens topicLower;
          t = title a;
          d = description a
      in if isLocal then
           (if 0 < length gts \<and> (textHasAny t gts \<or> textHasAny d gts) then True
            else if length gts = 0 then True
            else False)
         else
           (if topicLower \<in> set CORE_CATEGORIES then True
            else if 0 < length tts \<and> (textHasAny t tts \<or> textHasAny d tts) then True
            else False))"

text \<open>
  One step of the scoring loops: \<open>if (!g) continue; if (t.includes(g)) s += 2;
  else if (d.includes(g)) s += 1\<close>.
\<close>

definition boost :: "string \<Rightarrow> string \<Rightarrow> rat \<Rightarrow> string \<Rightarrow> rat" where
  "boost t d s g =
     (if g = [] then s
      else if str_includes t g then s + 2
      else if str_includes d g then s + 1
      else s)"

definition score :: "string \<Rightarrow> geo option \<Rightarrow> article \<Rightarrow> rat" where
  "score topic g a =
     (let topicLower = toLowerCase topic;
          t = toLowerCase (title a);
          d = toLowerCase (description a);
          s0 = 0;
          s1 = foldl (boost t d) s0 (geoTokens g);
          s2 = (if topicLower \<notin> set CORE_CATEGORIES
                then foldl (boost t d) s1 (topicTokens topicLower) else s1);
          s3 = (if publishedAt a \<noteq> [] then s2 + 1 / 2 else s2)
      in s3)"

text \<open>\<open>for (const a of cs) { out.push(a); if (out.length >= minCount) break; }\<close>\<close>

fun push_until :: "int \<Rightarrow> 'a list \<Rightarrow> 'a list \<Rightarrow> 'a list" where
  "push_until m out [] = out"
| "push_until m out (a # cs) =
     (let out' = out @ [a]
      in if m \<le> int (length out') then out' else push_until m out' cs)"

text \<open>
  \<open>selected\<close> holds the objects the first pass pushed, so an article of \<open>original\<close> is
  outside it exactly when the first pass did not keep it: \<open>strict_match\<close> reads only the
  article's own fields. \<open>Array.prototype.sort\<close> is stable, as \<open>sort_key\<close> is, and the
  comparator \<open>y.s - x.s\<close> orders by descending score.
\<close>

definition candidates :: "string \<Rightarrow> geo option \<Rightarrow> article list \<Rightarrow> article list" where
  "candidates topic g original =
     sort_key (\<lambda>a. - score topic g a) (filter (\<lambda>a. \<not> strict_match topic g a) original)"

definition filterRelevantArticles ::
  "string \<Rightarrow> geo option \<Rightarrow> article list \<Rightarrow> int \<Rightarrow> article list" where
  "filterRelevantArticles topic g original minCount =
     (let isLocal = (toLowerCase topic = ''local'');
          out = filter (strict_match topic g) original
      in if minCount \<le> int (length out) then slice0 out minCount
         else
           (let out2 = push_until minCount out (candidates topic g original);
                out3 = (if isLocal \<and> int (length out2) < minCount
                        then push_until minCount out2
                               (filter (\<lambda>a. \<not> strict_match topic g a) original)
                        else out2)
            in if 0 < length out3 then out3 else slice0 original minCount))"

text \<open>
  The articles the scoring loop appends: the first \<open>minCount - out.length\<close> candidates.
\<close>

definition backfilled :: "string \<Rightarrow> geo option \<Rightarrow> article list \<Rightarrow> int \<Rightarrow> article list" where
  "backfilled topic g original minCount =
     take (nat (minCount - int (length (filter (strict_match topic g) original))))
       (candidates topic g original)"

text \<open>
  The score as the specification words it: per token 2 points for the title, 1 point for
  the description only, summed over the tokens, plus one half for a publish timestamp.
\<close>

definition points :: "string \<Rightarrow> string \<Rightarrow> string \<Rightarrow> rat" where
  "points t d tok = (if str_includes t tok then 2 else if str_includes d tok then 1 else 0)"

definition spec_score :: "string \<Rightarrow> geo option \<Rightarrow> article \<Rightarrow> rat" where
  "spec_score topic g a =
     (let t = toLowerCase (title a); d = toLowerCase (description a)
      in (\<Sum>tok\<leftarrow>geoTokens g. points t d tok)
         + (if toLowerCase topic \<in> set CORE_CATEGORIES then 0
            else (\<Sum>tok\<leftarrow>topicTokens (toLowerCase topic). points t d tok))
         + (if publishedAt a = [] then 0 else 1 / 2))"

section \<open>The uplifting classifier\<close>

definition upliftingKeywords :: "string list" where
  "upliftingKeywords =
     [''breakthrough'', ''achievement'', ''success'', ''victory'', ''triumph'', ''milestone'',
      ''innovation'', ''discovery'', ''progress'', ''advancement'', ''improvement'', ''growth'',
      ''celebration'', ''record'', ''award'', ''recognition'', ''honor'', ''accomplishment'',
      ''recovery'', ''healing'', ''cure'', ''treatment'', ''solution'', ''rescue'', ''save'',
      ''donation'', ''charity'', ''volunteer'', ''help'', ''support'', ''community'', ''kindness'',
      ''environmental'', ''sustainability'', ''green'', ''renewable'', ''clean energy'',
      ''conservation'',
      ''education'', ''learning'', ''scholarship'', ''graduation'', ''inspiration'', ''motivation'',
      ''art'', ''culture'', ''festival'', ''celebration'', ''music'', ''creativity'', ''beauty'',
      ''sports'', ''championship'', ''medal'', ''gold'', ''silver'', ''bronze'', ''teamwork'',
      ''technology'', ''invention'', ''startup'', ''funding'', ''investment'', ''entrepreneur'',
      ''hope'', ''optimism'', ''resilience'', ''courage'', ''determination'', ''perseverance'']"

definition negativeKeywords :: "string list" where
  "negativeKeywords =
     [''death'', ''died'', ''killed'', ''murder'', ''crime'', ''violence'', ''attack'',
      ''war'', ''conflict'', ''battle'', ''fighting'', ''bomb'', ''explosion'',
      ''disaster'', ''accident'', ''crash'', ''fire'', ''flood'', ''earthquake'',
      ''crisis'', ''emergency'', ''danger'', ''threat'', ''risk'', ''problem'',
      ''scandal'', ''corruption'', ''fraud'', ''theft'', ''robbery'', ''arrest'',
      ''disease'', ''pandemic'', ''outbreak'', ''infection'', ''virus'', ''illness'',
      ''recession'', ''unemployment'', ''layoff'', ''bankruptcy'', ''debt'', ''loss'']"

text \<open>\<open>keywords.some(keyword => text.includes(keyword))\<close>\<close>

fun some_included :: "string list \<Rightarrow> string \<Rightarrow> bool" where
  "some_included [] text = False"
| "some_included (k # ks) text = (if str_includes text k then True else some_included ks text)"

definition uplifting_text :: "article \<Rightarrow> string" where
  "uplifting_text a = toLowerCase (title a) @ '' '' @ toLowerCase (description a)"

definition isUpliftingNews :: "article \<Rightarrow> bool" where
  "isUpliftingNews a =
     (let text = uplifting_text a;
          hasNegative = some_included negativeKeywords text
      in if hasNegative then False
         else (let hasUplifting = some_included upliftingKeywords text in hasUplifting))"

section \<open>Errors\<close>

text \<open>
  What the code throws, as values. A result is \<open>error + 'a\<close>, with \<open>Inl\<close> the exception;
  \<open>try_catch\<close> is \<open>try { ... } catch (error) { ... }\<close>.
\<close>

datatype error =
    NewsAPI_error nat string
  | Fetch_rejected
  | Redis_failure string
  | JSON_failure string
  | LLM_failure string
  | No_summary

definition try_catch :: "error + 'a \<Rightarrow> (error \<Rightarrow> error + 'a) \<Rightarrow> error + 'a" where
  "try_catch body handler = (case body of Inl e \<Rightarrow> handler e | Inr v \<Rightarrow> Inr v)"

section \<open>The cache layer\<close>

text \<open>
  The Redis client and the JSON codec are external: each call may return or throw, so each
  is a function to a result. \<open>timers\<close> lists the deletions that \<open>setTimeout\<close> has
  scheduled, as (delay in milliseconds, key). Cached values are objects, hence truthy.
\<close>

record redis_client =
  redis_get :: "string \<Rightarrow> error + string option"
  redis_setEx :: "string \<Rightarrow> int \<Rightarrow> string \<Rightarrow> error + unit"
  redis_del :: "string \<Rightarrow> error + unit"

record 'v JSON =
  parse :: "string \<Rightarrow> error + 'v"
  stringify :: "'v \<Rightarrow> error + string"

record 'v CacheManager =
  client :: "redis_client option"
  isConnected :: bool
  fallbackCache :: "string \<rightharpoonup> 'v"
  timers :: "(int \<times> string) list"

definition cache_get :: "'v JSON \<Rightarrow> 'v CacheManager \<Rightarrow> string \<Rightarrow> error + 'v option" where
  "cache_get json c key =
     try_catch
       (case (isConnected c, client c) of
          (True, Some cl) \<Rightarrow>
            (case redis_get cl key of
               Inl e \<Rightarrow> Inl e
             | Inr None \<Rightarrow> Inr None
             | Inr (Some v) \<Rightarrow>
                 if v = [] then Inr None
                 else (case parse json v of Inl e \<Rightarrow> Inl e | Inr x \<Rightarrow> Inr (Some x)))
        | _ \<Rightarrow> Inr (fallbackCache c key))
       (\<lambda>error. Inr None)"

definition cache_set ::
  "'v JSON \<Rightarrow> 'v CacheManager \<Rightarrow> string \<Rightarrow> 'v \<Rightarrow> int \<Rightarrow> error + 'v CacheManager" where
  "cache_set json c key v ttlSeconds =
     try_catch
       (case (isConnected c, client c) of
          (True, Some cl) \<Rightarrow>
            (case stringify json v of
               Inl e \<Rightarrow> Inl e
             | Inr s \<Rightarrow>
                 (case redis_setEx cl key ttlSeconds s of
                    Inl e \<Rightarrow> Inl e
                  | Inr u \<Rightarrow> Inr c))
        | _ \<Rightarrow>
            Inr (c\<lparr>fallbackCache := (fallbackCache c)(key \<mapsto> v),
                   timers := timers c @ [(ttlSeconds * 1000, key)]\<rparr>))
       (\<lambda>error. Inr c)"

definition cache_del :: "'v CacheManager \<Rightarrow> string \<Rightarrow> error + 'v CacheManager" where
  "cache_del c key =
     try_catch
       (case (isConnected c, client c) of
          (True, Some cl) \<Rightarrow>
            (case redis_del cl key of Inl e \<Rightarrow> Inl e | Inr u \<Rightarrow> Inr c)
        | _ \<Rightarrow> Inr (c\<lparr>fallbackCache := (fallbackCache c)(key := None)\<rparr>))
       (\<lambda>error. Inr c)"

text \<open>Decimal printing of a number inside a template string.\<close>

fun show_nat :: "nat \<Rightarrow> string" where
  "show_nat n =
     (if n < 10 then [''0123456789'' ! n]
      else show_nat (n div 10) @ [''0123456789'' ! (n mod 10)])"

declare show_nat.simps [simp del]

definition show_int :: "int \<Rightarrow> string" where
  "show_int i = (if i < 0 then ''-'' @ show_nat (nat (- i)) else show_nat (nat i))"

text \<open>A property inside a template string: a missing one prints as \<open>undefined\<close>.\<close>

definition template :: "string option \<Rightarrow> string" where
  "template x = (case x of None \<Rightarrow> ''undefined'' | Some s \<Rightarrow> s)"

definition getNewsKey :: "string \<Rightarrow> geo option \<Rightarrow> int \<Rightarrow> string" where
  "getNewsKey topic g wordCount =
     (let geoStr = (case g of
                      None \<Rightarrow> ''no-geo''
                    | Some x \<Rightarrow> template (country x) @ ''-'' @ template (region x) @ ''-''
                                @ template (city x))
      in ''news:'' @ topic @ '':'' @ geoStr @ '':'' @ show_int wordCount)"

section \<open>The article provider\<close>

text \<open>
  A raw provider record: every property may be missing, \<open>source\<close> is an object with a
  \<open>name\<close>. The provider answers a request with a failed exchange, a status that is not
  ok together with the body text, or a decoded body, whose \<open>articles\<close> is an array or not.
  In a request the empty string stands for a parameter that is not set; the encoding of the
  URL and its \<open>from\<close> date are left out.
\<close>

record provider_source =
  source_name :: "string option"

record raw_article =
  raw_title :: "string option"
  raw_description :: "string option"
  raw_url :: "string option"
  raw_source :: "provider_source option"
  raw_publishedAt :: "string option"
  raw_urlToImage :: "string option"

datatype request =
    Everything string int
  | TopHeadlines string string string int

datatype response =
    Rejected
  | HttpError nat string
  | Body "raw_article list option"

definition pageSize_of :: "int \<Rightarrow> int" where
  "pageSize_of maxResults = min (max (if maxResults = 0 then 5 else maxResults) 1) 50"

definition read_response :: "response \<Rightarrow> error + raw_article list" where
  "read_response r =
     (case r of
        Rejected \<Rightarrow> Inl Fetch_rejected
      | HttpError status text \<Rightarrow> Inl (NewsAPI_error status text)
      | Body None \<Rightarrow> Inr []
      | Body (Some as) \<Rightarrow> Inr as)"

definition fetchArticlesEverything ::
  "(request \<Rightarrow> response) \<Rightarrow> string list \<Rightarrow> int \<Rightarrow> error + raw_article list" where
  "fetchArticlesEverything http qParts maxResults =
     (let q = join '' '' (filter_Boolean qParts);
          pageSize = pageSize_of maxResults
      in read_response (http (Everything q pageSize)))"

definition fetchTopHeadlinesByCategory ::
  "(request \<Rightarrow> response) \<Rightarrow> string \<Rightarrow> string \<Rightarrow> int \<Rightarrow> string \<Rightarrow> error + raw_article list"
  where
  "fetchTopHeadlinesByCategory http category cc maxResults extraQuery =
     (let pageSize = pageSize_of maxResults
      in read_response (http (TopHeadlines category (toLowerCase cc) extraQuery pageSize)))"

section \<open>The article fetcher\<close>

record env =
  NEWSAPI_KEY :: string
  http :: "request \<Rightarrow> response"

record fetch_result =
  articles :: "article list"
  result_note :: "string option"

text \<open>A provider call that a branch starts: the helper and its arguments.\<close>

datatype provider_call =
    CallEverything "string list" int
  | CallTopHeadlines string string int string

definition run_call :: "(request \<Rightarrow> response) \<Rightarrow> provider_call \<Rightarrow> error + raw_article list"
  where
  "run_call h c =
     (case c of
        CallEverything qParts maxResults \<Rightarrow> fetchArticlesEverything h qParts maxResults
      | CallTopHeadlines category cc maxResults extraQuery \<Rightarrow>
          fetchTopHeadlinesByCategory h category cc maxResults extraQuery)"

text \<open>\<open>Math.ceil(pageSize / k)\<close> on integers.\<close>

definition ceil_div :: "int \<Rightarrow> int \<Rightarrow> int" where
  "ceil_div p k = (p + k - 1) div k"

text \<open>The promises of the local branch, in the order they are pushed.\<close>

definition local_promises :: "string \<Rightarrow> string \<Rightarrow> string \<Rightarrow> int \<Rightarrow> provider_call list" where
  "local_promises cityName regionName cc pageSize =
     (if cityName \<noteq> [] then
        [CallTopHeadlines ''general'' cc (ceil_div pageSize 3) ([CHR 0x22] @ cityName @ [CHR 0x22]),
         CallEverything [''title:'' @ cityName] (ceil_div pageSize 3),
         CallEverything [cityName] (ceil_div pageSize 3)]
      else [])
     @ (if regionName \<noteq> [] then
          [CallTopHeadlines ''general'' cc (ceil_div pageSize 3)
             ([CHR 0x22] @ regionName @ [CHR 0x22]),
           CallEverything [''title:'' @ regionName] (ceil_div pageSize 3),
           CallEverything [regionName] (ceil_div pageSize 3)]
        else [])
     @ (if cc \<noteq> [] then [CallTopHeadlines ''general'' cc (ceil_div pageSize 2) []] else [])
     @ [CallTopHeadlines ''general'' [] (ceil_div pageSize 2) []]"

text \<open>
  \<open>Promise.allSettled\<close> followed by the filter on \<open>fulfilled\<close> and \<open>flatMap\<close>: a rejected
  promise contributes nothing.
\<close>

definition fulfilled_values :: "(error + 'a list) list \<Rightarrow> 'a list" where
  "fulfilled_values results =
     concat (map (\<lambda>r. case r of Inl e \<Rightarrow> [] | Inr v \<Rightarrow> v) results)"

text \<open>One promise of the general branch: its own \<open>catch\<close> turns a failure into \<open>[]\<close>.\<close>

definition general_promise ::
  "(request \<Rightarrow> response) \<Rightarrow> string \<Rightarrow> string \<Rightarrow> error + raw_article list" where
  "general_promise h cc category =
     try_catch
       (if category = ''world'' then
          (case fetchArticlesEverything h [''world''] 1 of
             Inl e \<Rightarrow> Inl e
           | Inr worldArticles \<Rightarrow> Inr (take 1 worldArticles))
        else
          (case fetchTopHeadlinesByCategory h category cc 1 [] of
             Inl e \<Rightarrow> Inl e
           | Inr categoryArticles \<Rightarrow> Inr (take 1 categoryArticles)))
       (\<lambda>error. Inr [])"

text \<open>
  The raw list \<open>articles\<close> that the four branches of \<open>fetchArticlesForTopic\<close> build. The
  \<open>catch\<close> blocks around \<open>Promise.allSettled\<close> are not reachable, as it never rejects.
\<close>

definition fetch_branches ::
  "(request \<Rightarrow> response) \<Rightarrow> string \<Rightarrow> geo option \<Rightarrow> int \<Rightarrow> error + raw_article list" where
  "fetch_branches h topic g maxResults =
     (let cc = or_str (geo_prop g country) (or_str (geo_prop g countryCode) []);
          regionName = or_str (geo_prop g region) (or_str (geo_prop g state) []);
          cityName = or_str (geo_prop g city) [];
          queryParts = [topic] @ (if regionName \<noteq> [] then [regionName] else [])
                         @ (if cityName \<noteq> [] then [cityName] else []);
          pageSize = pageSize_of maxResults;
          normalizedTopic = toLowerCase topic;
          useCategory = (normalizedTopic \<in> set CORE_CATEGORIES \<and> normalizedTopic \<noteq> ''world'');
          isLocal = (normalizedTopic = ''local'');
          isGeneral = (normalizedTopic = ''general'')
      in if isGeneral then
           (let otherTopics = [''business'', ''entertainment'', ''health'', ''science'',
                               ''sports'', ''technology'', ''world''];
                results = map (general_promise h cc) otherTopics
            in Inr (filter (\<lambda>a. or_str (raw_title a) [] \<noteq> []) (fulfilled_values results)))
         else if isLocal then
           (let promises = local_promises cityName regionName cc pageSize;
                results = map (run_call h) promises
            in Inr (take (nat pageSize) (fulfilled_values results)))
         else if useCategory then
           (let bias = (if cityName \<noteq> [] then cityName else regionName)
            in case fetchTopHeadlinesByCategory h normalizedTopic cc pageSize bias of
                 Inl e \<Rightarrow> Inl e
               | Inr as \<Rightarrow>
                   if int (length as) < min 5 pageSize \<and> bias \<noteq> [] then
                     (case fetchArticlesEverything h [normalizedTopic, bias]
                             (pageSize - int (length as)) of
                        Inl e \<Rightarrow> Inl e
                      | Inr extra \<Rightarrow> Inr (as @ extra))
                   else Inr as)
         else fetchArticlesEverything h queryParts pageSize)"

definition normalizeArticle :: "raw_article \<Rightarrow> article" where
  "normalizeArticle a =
     \<lparr>title = or_str (raw_title a) [],
      description = or_str (raw_description a) [],
      url = or_str (raw_url a) [],
      source = (case raw_source a of None \<Rightarrow> [] | Some s \<Rightarrow> or_str (source_name s) []),
      publishedAt = or_str (raw_publishedAt a) [],
      urlToImage = or_str (raw_urlToImage a) []\<rparr>"

definition fetchArticlesForTopic ::
  "env \<Rightarrow> fetch_result JSON \<Rightarrow> fetch_result CacheManager \<Rightarrow> string \<Rightarrow> geo option \<Rightarrow> int
     \<Rightarrow> (error + fetch_result) \<times> fetch_result CacheManager" where
  "fetchArticlesForTopic e json cache topic g maxResults =
     (let pageSize = pageSize_of maxResults
      in if NEWSAPI_KEY e = [] then
           (Inr \<lparr>articles = [], result_note = Some ''Missing NEWSAPI_KEY''\<rparr>, cache)
         else
           (let cacheKey = getNewsKey topic g pageSize
            in case cache_get json cache cacheKey of
                 Inl err \<Rightarrow> (Inl err, cache)
               | Inr (Some cached) \<Rightarrow> (Inr cached, cache)
               | Inr None \<Rightarrow>
                   (case fetch_branches (http e) topic g maxResults of
                      Inl err \<Rightarrow> (Inl err, cache)
                    | Inr as \<Rightarrow>
                        (let normalized = map normalizeArticle as;
                             result = \<lparr>articles = normalized, result_note = None\<rparr>
                         in case cache_set json cache cacheKey result 900 of
                              Inl err \<Rightarrow> (Inl err, cache)
                            | Inr cache' \<Rightarrow> (Inr result, cache')))))"

section \<open>The summarization stage\<close>

text \<open>
  The completion service is external: it receives what the prompt is built from (the topic,
  at most four articles, the word count, the uplifting flag) and returns the content of the
  first choice, if any, or fails. \<open>summarizeArticles\<close> returns the text together with the
  completion requests it made.
\<close>

record llm_request =
  llm_topic :: string
  llm_articles :: "article list"
  llm_wordCount :: int
  llm_uplifting :: bool

definition fallback_summary :: "string \<Rightarrow> bool \<Rightarrow> string list \<Rightarrow> string" where
  "fallback_summary topic goodNewsOnly titles =
     (let upliftingPrefix = (if goodNewsOnly then ''uplifting '' else [])
      in ''Here'' @ [CHR 0x27] @ ''s your '' @ upliftingPrefix @ topic @ '' news. ''
         @ join ''. '' titles @ ''.'')"

definition summary_base :: "string \<Rightarrow> geo option \<Rightarrow> string" where
  "summary_base topic g =
     (let baseParts = [trim topic]
            @ (if or_str (geo_prop g region) [] \<noteq> [] then [or_str (geo_prop g region) []] else [])
            @ (if or_str (geo_prop g country) (or_str (geo_prop g countryCode) []) \<noteq> []
               then [or_str (geo_prop g country) (or_str (geo_prop g countryCode) [])] else [])
      in join '' '' (filter_Boolean baseParts))"

definition summarizeArticles ::
  "string \<Rightarrow> (llm_request \<Rightarrow> error + string option) \<Rightarrow> string \<Rightarrow> geo option \<Rightarrow> article list
     \<Rightarrow> int \<Rightarrow> bool \<Rightarrow> string \<times> llm_request list" where
  "summarizeArticles OPENAI_API_KEY llm topic g as wordCount goodNewsOnly =
     (let base = summary_base topic g
      in if length as = 0 then (''No recent coverage found for '' @ base @ ''.'', [])
         else if OPENAI_API_KEY = [] then
           (fallback_summary topic goodNewsOnly (map title (take 3 as)), [])
         else
           (let req = \<lparr>llm_topic = topic, llm_articles = take 4 as,
                       llm_wordCount = wordCount, llm_uplifting = goodNewsOnly\<rparr>;
                fallback = fallback_summary topic goodNewsOnly
                             (filter_Boolean (map title (take 3 as)))
            in case llm req of
                 Inl err \<Rightarrow> (fallback, [req])
               | Inr None \<Rightarrow> (fallback, [req])
               | Inr (Some content) \<Rightarrow>
                   (let summary = trim content
                    in if summary = [] then (fallback, [req]) else (summary, [req]))))"

section \<open>The usage gate\<close>

text \<open>
  A date is its time value in milliseconds. \<open>toDateString\<close> is the platform's, in local
  time, and is a parameter. \<open>new Date()\<close> is evaluated twice, for \<open>today\<close> and for the new
  \<open>lastUsageDate\<close>: \<open>t1\<close> and \<open>t2\<close> are the two readings of the clock.
\<close>

record user =
  isPremium :: bool
  dailyUsageCount :: int
  lastUsageDate :: int

record usage_check =
  allowed :: bool
  reason :: string
  dailyCount :: "int option"

text \<open>
  \<open>userSchema.methods.canFetchNews\<close>: \<open>this\<close> is the user document. The call of \<open>save\<close> that
  writes the reset to the database is outside the model.
\<close>

definition canFetchNews :: "(int \<Rightarrow> 'd) \<Rightarrow> int \<Rightarrow> int \<Rightarrow> user \<Rightarrow> usage_check \<times> user" where
  "canFetchNews toDateString t1 t2 this =
     (let today = toDateString t1;
          last = toDateString (lastUsageDate this);
          this' = (if last \<noteq> today
                   then this\<lparr>dailyUsageCount := 0, lastUsageDate := t2\<rparr> else this)
      in if isPremium this' then
           (\<lparr>allowed = True, reason = ''premium'', dailyCount = None\<rparr>, this')
         else if 1 \<le> dailyUsageCount this' then
           (\<lparr>allowed = False, reason = ''daily_limit_reached'',
             dailyCount = Some (dailyUsageCount this')\<rparr>, this')
         else
           (\<lparr>allowed = True, reason = ''free_quota'',
             dailyCount = Some (dailyUsageCount this')\<rparr>, this'))"

text \<open>\<open>fallbackAuth.canFetchNews(user)\<close>, on the in-memory user object.\<close>

definition fallbackAuth_canFetchNews ::
  "(int \<Rightarrow> 'd) \<Rightarrow> int \<Rightarrow> int \<Rightarrow> user \<Rightarrow> usage_check \<times> user" where
  "fallbackAuth_canFetchNews toDateString t1 t2 u =
     (let today = toDateString t1;
          last = toDateString (lastUsageDate u);
          u' = (if last \<noteq> today then u\<lparr>dailyUsageCount := 0, lastUsageDate := t2\<rparr> else u)
      in if isPremium u' then
           (\<lparr>allowed = True, reason = ''premium'', dailyCount = None\<rparr>, u')
         else if 1 \<le> dailyUsageCount u' then
           (\<lparr>allowed = False, reason = ''daily_limit_reached'',
             dailyCount = Some (dailyUsageCount u')\<rparr>, u')
         else
           (\<lparr>allowed = True, reason = ''free_quota'',
             dailyCount = Some (dailyUsageCount u')\<rparr>, u'))"

definition incrementUsage :: "int \<Rightarrow> user \<Rightarrow> user" where
  "incrementUsage t u = u\<lparr>dailyUsageCount := dailyUsageCount u + 1, lastUsageDate := t\<rparr>"

section \<open>The response assembly\<close>

text \<open>
  A summary item, as emitted per retained article and as stored in the candidate pool. The
  \<open>id\<close> is never empty: it is built from the topic, an index and the clock.
\<close>

record item =
  item_id :: string
  item_title :: string
  item_summary :: string
  item_source :: string
  item_url :: string
  item_topic :: string

text \<open>\<open>i.url || i.id\<close>\<close>

definition item_key :: "item \<Rightarrow> string" where
  "item_key i = (if item_url i \<noteq> [] then item_url i else item_id i)"

text \<open>
  The loop over \<open>globalCandidates\<close>, with the items so far and the set \<open>have\<close>: skip a
  candidate whose key is in \<open>have\<close>, else push it, add its key and stop at three items.
\<close>

fun backfill_loop :: "item list \<Rightarrow> string set \<Rightarrow> item list \<Rightarrow> item list" where
  "backfill_loop items have [] = items"
| "backfill_loop items have (c # cs) =
     (let key = item_key c
      in if key \<in> have then backfill_loop items have cs
         else (let items' = items @ [c];
                   have' = insert key have
               in if 3 \<le> length items' then items' else backfill_loop items' have' cs))"

definition backfill :: "item list \<Rightarrow> item list \<Rightarrow> item list" where
  "backfill items globalCandidates =
     (if length items < 3 \<and> 0 < length globalCandidates
      then backfill_loop items (set (map item_key items)) globalCandidates
      else items)"

section \<open>Sample inputs\<close>

definition w_geo :: geo where
  "w_geo = \<lparr>city = Some ''Rome'', region = Some ''Lazio'', state = None,
            country = Some ''IT'', countryCode = Some ''IT''\<rparr>"

definition w_art1 :: article where
  "w_art1 = \<lparr>title = ''Rain due'', description = ''Wet week'', url = ''u1'',
             source = ''Wire'', publishedAt = [], urlToImage = []\<rparr>"

definition w_art2 :: article where
  "w_art2 = \<lparr>title = ''Stocks up'', description = ''A rally'', url = ''u2'',
             source = ''Wire'', publishedAt = ''2025-01-01'', urlToImage = []\<rparr>"

definition w_art3 :: article where
  "w_art3 = \<lparr>title = ''Rome fair'', description = ''Hope'', url = ''u3'',
             source = ''Wire'', publishedAt = ''2025-01-02'', urlToImage = []\<rparr>"

definition w_art4 :: article where
  "w_art4 = \<lparr>title = ''Hope after flood'', description = ''Rescue'', url = ''u4'',
             source = ''Wire'', publishedAt = [], urlToImage = []\<rparr>"

definition utc_day :: "int \<Rightarrow> int" where
  "utc_day t = t div 86400000"

definition w_user :: user where
  "w_user = \<lparr>isPremium = False, dailyUsageCount = 1, lastUsageDate = 86400100\<rparr>"

definition w_item :: "string \<Rightarrow> string \<Rightarrow> item" where
  "w_item i u = \<lparr>item_id = i, item_title = ''T'', item_summary = ''S'', item_source = ''Wire'',
                  item_url = u, item_topic = ''chess''\<rparr>"

definition w_pool :: "item list" where
  "w_pool = [w_item ''chess-cand-0-1'' ''u1'', w_item ''chess-cand-1-1'' ''u1'',
             w_item ''chess-cand-2-1'' [], w_item ''chess-cand-3-1'' ''u3'']"

definition w_client :: redis_client where
  "w_client = \<lparr>redis_get = (\<lambda>k. Inl (Redis_failure ''down'')),
               redis_setEx = (\<lambda>k t s. Inl (Redis_failure ''down'')),
               redis_del = (\<lambda>k. Inl (Redis_failure ''down''))\<rparr>"

definition w_json :: "fetch_result JSON" where
  "w_json = \<lparr>parse = (\<lambda>s. Inl (JSON_failure ''bad'')), stringify = (\<lambda>v. Inr ''{}'')\<rparr>"

definition w_redis_cache :: "fetch_result CacheManager" where
  "w_redis_cache = \<lparr>client = Some w_client, isConnected = True,
                    fallbackCache = Map.empty, timers = []\<rparr>"

definition w_cache :: "fetch_result CacheManager" where
  "w_cache = \<lparr>client = None, isConnected = False, fallbackCache = Map.empty, timers = []\<rparr>"

definition w_raw :: raw_article where
  "w_raw = \<lparr>raw_title = Some ''Rome fair'', raw_description = None, raw_url = Some ''u1'',
            raw_source = Some \<lparr>source_name = Some ''Wire''\<rparr>, raw_publishedAt = None,
            raw_urlToImage = None\<rparr>"

definition w_env :: env where
  "w_env = \<lparr>NEWSAPI_KEY = ''k'', http = (\<lambda>r. Body (Some [w_raw]))\<rparr>"

definition w_llm :: "llm_request \<Rightarrow> error + string option" where
  "w_llm r = Inl (LLM_failure ''down'')"

section \<open>Properties of the relevance filter\<close>

lemma push_until_eq:
  "int (length out) < m \<Longrightarrow> push_until m out cs = out @ take (nat (m - int (length out))) cs"
proof (induction cs arbitrary: out)
  case Nil
  then show ?case by simp
next
  case (Cons a cs)
  show ?case
  proof (cases "m \<le> int (length out) + 1")
    case True
    with Cons.prems have "nat (m - int (length out)) = 1" by simp
    with True show ?thesis by (simp add: Let_def)
  next
    case False
    then have lt: "int (length (out @ [a])) < m" by simp
    obtain k where k: "nat (m - int (length out)) = Suc k"
      using False Cons.prems by (cases "nat (m - int (length out))") auto
    then have k': "nat (m - int (length (out @ [a]))) = k" by simp
    from False Cons.IH [OF lt] k k' show ?thesis by (simp add: Let_def)
  qed
qed

lemma length_push_until:
  "int (length out) < m \<Longrightarrow>
   int (length (push_until m out cs)) = min m (int (length out) + int (length cs))"
  by (simp add: push_until_eq)

lemma length_push_until_ge: "length out \<le> length (push_until m out cs)"
proof (induction cs arbitrary: out)
  case Nil
  then show ?case by simp
next
  case (Cons a cs)
  have "length out \<le> length (out @ [a])" by simp
  also have "\<dots> \<le> length (push_until m (out @ [a]) cs)" by (rule Cons.IH)
  finally show ?case by (simp add: Let_def)
qed

lemma length_candidates:
  "length (candidates topic g original) =
     length original - length (filter (strict_match topic g) original)"
  using sum_length_filter_compl [of "strict_match topic g" original]
  by (simp add: candidates_def)

lemma length_slice0: "int (length (slice0 xs e)) \<ge> min e (int (length xs))"
  by (cases "e < 0") (simp_all add: slice0_def min_def)

text \<open>
  Claim C1. For every topic, geography, article list and minimum count, the list that
  \<open>filterRelevantArticles\<close> returns has at least \<open>min minCount (length original)\<close>
  articles; in particular a non-empty input with a minimum count of at least one gives a
  non-empty output.
\<close>

theorem filterRelevantArticles_min_length:
  "min minCount (int (length original))
     \<le> int (length (filterRelevantArticles topic g original minCount))
   \<and> (original \<noteq> [] \<and> 1 \<le> minCount \<longrightarrow>
        filterRelevantArticles topic g original minCount \<noteq> [])"
proof -
  let ?out = "filter (strict_match topic g) original"
  let ?res = "filterRelevantArticles topic g original minCount"
  have bound: "min minCount (int (length original)) \<le> int (length ?res)"
  proof (cases "minCount \<le> int (length ?out)")
    case True
    then have "?res = slice0 ?out minCount"
      by (simp add: filterRelevantArticles_def Let_def)
    moreover have "min minCount (int (length ?out)) \<le> int (length (slice0 ?out minCount))"
      by (rule length_slice0)
    ultimately show ?thesis using True by simp
  next
    case False
    then have lt: "int (length ?out) < minCount" by simp
    let ?out2 = "push_until minCount ?out (candidates topic g original)"
    let ?rest = "filter (\<lambda>a. \<not> strict_match topic g a) original"
    let ?out3 = "if toLowerCase topic = ''local'' \<and> int (length ?out2) < minCount
                 then push_until minCount ?out2 ?rest else ?out2"
    have res: "?res = (if 0 < length ?out3 then ?out3 else slice0 original minCount)"
      using False by (simp add: filterRelevantArticles_def Let_def)
    have "length ?out \<le> length original" by simp
    then have l2: "int (length ?out2) = min minCount (int (length original))"
      using length_push_until [OF lt, of "candidates topic g original"]
      by (simp add: length_candidates)
    have l3: "length ?out2 \<le> length ?out3"
      by (simp add: length_push_until_ge)
    show ?thesis
    proof (cases "0 < length ?out3")
      case True
      with res have "?res = ?out3" by simp
      with l2 l3 show ?thesis by simp
    next
      case False
      with l3 have "length ?out2 = 0" by simp
      with l2 lt have "original = []" by (simp add: min_def split: if_splits)
      with res show ?thesis by (simp add: slice0_def)
    qed
  qed
  moreover have "original \<noteq> [] \<and> 1 \<le> minCount \<longrightarrow> ?res \<noteq> []"
  proof
    assume a: "original \<noteq> [] \<and> 1 \<le> minCount"
    then have "1 \<le> int (length original)" by (cases original) simp_all
    with a have "1 \<le> min minCount (int (length original))" by simp
    with bound have "1 \<le> int (length ?res)" by linarith
    then show "?res \<noteq> []" by auto
  qed
  ultimately show ?thesis by blast
qed

theorem filterRelevantArticles_min_length_witness:
  "[w_art1, w_art2] \<noteq> [] \<and> (1::int) \<le> 6 \<and>
   filterRelevantArticles ''chess'' (Some w_geo) [w_art1, w_art2] 6 \<noteq> []"
  using filterRelevantArticles_min_length [of 6 "[w_art1, w_art2]" "''chess''" "Some w_geo"]
  by simp

lemma str_includes_sublist: "str_includes t k \<longleftrightarrow> sublist k t"
  by (induction t) (auto simp: sublist_Cons_right)

lemma set_js_set_aux:
  "set (foldl (\<lambda>acc x. if x \<in> set acc then acc else acc @ [x]) ys xs) = set ys \<union> set xs"
  by (induction xs arbitrary: ys) auto

lemma set_js_set: "set (js_set xs) = set xs"
  by (simp add: js_set_def set_js_set_aux)

lemma js_set_filterD: "x \<in> set (js_set (filter P xs)) \<Longrightarrow> P x"
  by (simp add: set_js_set)

lemma geoTokens_nonempty: "tok \<in> set (geoTokens g) \<Longrightarrow> tok \<noteq> []"
  unfolding geoTokens_def by (drule js_set_filterD) auto

lemma topicTokens_nonempty: "tok \<in> set (topicTokens s) \<Longrightarrow> tok \<noteq> []"
  unfolding topicTokens_def by (drule js_set_filterD) auto

lemma foldl_boost:
  "\<forall>tok\<in>set toks. tok \<noteq> [] \<Longrightarrow>
   foldl (boost t d) s toks = s + (\<Sum>tok\<leftarrow>toks. points t d tok)"
  by (induction toks arbitrary: s) (simp_all add: boost_def points_def)

lemma score_spec: "score topic g a = spec_score topic g a"
proof -
  have g: "\<forall>tok\<in>set (geoTokens g). tok \<noteq> []"
    using geoTokens_nonempty by blast
  have t: "\<forall>tok\<in>set (topicTokens (toLowerCase topic)). tok \<noteq> []"
    using topicTokens_nonempty by blast
  show ?thesis
    by (simp add: score_def spec_score_def Let_def foldl_boost [OF g] foldl_boost [OF t])
qed

lemma candidates_sorted:
  "sorted_wrt (\<lambda>x y. score topic g y \<le> score topic g x) (candidates topic g original)"
proof -
  have "sorted (map (\<lambda>a. - score topic g a) (candidates topic g original))"
    by (simp add: candidates_def)
  then show ?thesis by (simp add: sorted_map)
qed

lemma set_candidates:
  "set (candidates topic g original) = {a \<in> set original. \<not> strict_match topic g a}"
  by (simp add: candidates_def)

text \<open>
  Claim C7. When the first pass keeps fewer than \<open>minCount\<close> articles, the output is the
  kept articles followed by the scored backfill (followed, for the local topic only, by
  the permissive pass). The backfilled articles are articles the first pass did not keep,
  they are appended in non-increasing order of score, and the score of an article is
  2 for each geo token in the title, 1 for each geo token in the description only, the
  same per topic token when the topic is not a core category, and one half when
  \<open>publishedAt\<close> is not empty.
\<close>

theorem filterRelevantArticles_scored_backfill:
  assumes "int (length (filter (strict_match topic g) original)) < minCount"
  shows "(\<exists>extra. filterRelevantArticles topic g original minCount =
             filter (strict_match topic g) original
               @ backfilled topic g original minCount @ extra
           \<and> (toLowerCase topic \<noteq> ''local'' \<longrightarrow> extra = []))
         \<and> sorted_wrt (\<lambda>x y. score topic g y \<le> score topic g x)
              (backfilled topic g original minCount)
         \<and> (\<forall>a \<in> set (backfilled topic g original minCount).
               a \<in> set original \<and> \<not> strict_match topic g a
               \<and> score topic g a = spec_score topic g a)"
proof -
  let ?out = "filter (strict_match topic g) original"
  let ?B = "backfilled topic g original minCount"
  let ?rest = "filter (\<lambda>a. \<not> strict_match topic g a) original"
  let ?out2 = "push_until minCount ?out (candidates topic g original)"
  let ?out3 = "if toLowerCase topic = ''local'' \<and> int (length ?out2) < minCount
               then push_until minCount ?out2 ?rest else ?out2"
  have out2: "?out2 = ?out @ ?B"
    using assms by (simp add: push_until_eq backfilled_def)
  have res: "filterRelevantArticles topic g original minCount =
               (if 0 < length ?out3 then ?out3 else slice0 original minCount)"
    using assms by (simp add: filterRelevantArticles_def Let_def)
  have decomp: "\<exists>extra. filterRelevantArticles topic g original minCount = ?out @ ?B @ extra
                  \<and> (toLowerCase topic \<noteq> ''local'' \<longrightarrow> extra = [])"
  proof (cases "0 < length ?out3")
    case nonempty: True
    show ?thesis
    proof (cases "toLowerCase topic = ''local'' \<and> int (length ?out2) < minCount")
      case True
      then have "?out3 = ?out2 @ take (nat (minCount - int (length ?out2))) ?rest"
        by (simp add: push_until_eq)
      with nonempty res out2 True show ?thesis by auto
    next
      case False
      then have "?out3 = ?out2" by presburger
      with nonempty res out2 show ?thesis by auto
    qed
  next
    case False
    moreover have "length ?out2 \<le> length ?out3" by (simp add: length_push_until_ge)
    ultimately have "length ?out2 = 0" by simp
    with out2 have e: "?out = [] \<and> ?B = []" by simp
    then have "candidates topic g original = []"
      using assms by (auto simp: backfilled_def take_eq_Nil)
    then have "length original = 0"
      using e length_candidates [of topic g original] sum_length_filter_compl [of "strict_match topic g" original]
      by simp
    with False res e show ?thesis by (simp add: slice0_def)
  qed
  have srt: "sorted_wrt (\<lambda>x y. score topic g y \<le> score topic g x) ?B"
    unfolding backfilled_def by (rule sorted_wrt_take [OF candidates_sorted])
  have mem: "\<forall>a \<in> set ?B. a \<in> set original \<and> \<not> strict_match topic g a
               \<and> score topic g a = spec_score topic g a"
  proof
    fix a assume "a \<in> set ?B"
    then have "a \<in> set (candidates topic g original)"
      unfolding backfilled_def by (rule in_set_takeD)
    then show "a \<in> set original \<and> \<not> strict_match topic g a
                 \<and> score topic g a = spec_score topic g a"
      by (simp add: set_candidates score_spec)
  qed
  from decomp srt mem show ?thesis by blast
qed

theorem filterRelevantArticles_scored_backfill_witness:
  "int (length (filter (strict_match ''chess'' (Some w_geo)) [w_art1, w_art2, w_art3])) < 2
   \<and> backfilled ''chess'' (Some w_geo) [w_art1, w_art2, w_art3] 2 = [w_art3, w_art2]
   \<and> sorted_wrt (\<lambda>x y. score ''chess'' (Some w_geo) y \<le> score ''chess'' (Some w_geo) x)
        [w_art3, w_art2]
   \<and> score ''chess'' (Some w_geo) w_art3 = spec_score ''chess'' (Some w_geo) w_art3"
proof -
  have h: "int (length (filter (strict_match ''chess'' (Some w_geo)) [w_art1, w_art2, w_art3])) < 2"
    by code_simp
  have b: "backfilled ''chess'' (Some w_geo) [w_art1, w_art2, w_art3] 2 = [w_art3, w_art2]"
    by code_simp
  from filterRelevantArticles_scored_backfill [OF h] h b show ?thesis by simp
qed

section \<open>Properties of the uplifting classifier\<close>

lemma some_included_iff:
  "some_included ks text \<longleftrightarrow> (\<exists>k\<in>set ks. sublist k text)"
  by (induction ks) (simp_all add: str_includes_sublist)

text \<open>
  Claim C8. \<open>isUpliftingNews\<close> returns false whenever a negative keyword is a substring of
  the lowercased title and description (joined by one space), whatever positive keywords
  occur; and it returns true exactly when no negative keyword occurs and at least one
  positive keyword does.
\<close>

theorem isUpliftingNews_negative_first:
  "((\<exists>k\<in>set negativeKeywords. sublist k (uplifting_text a)) \<longrightarrow> \<not> isUpliftingNews a)
   \<and> (isUpliftingNews a \<longleftrightarrow>
        \<not> (\<exists>k\<in>set negativeKeywords. sublist k (uplifting_text a))
        \<and> (\<exists>k\<in>set upliftingKeywords. sublist k (uplifting_text a)))"
  by (simp add: isUpliftingNews_def Let_def some_included_iff)

theorem isUpliftingNews_negative_first_witness:
  "(\<exists>k\<in>set negativeKeywords. sublist k (uplifting_text w_art4))
   \<and> (\<exists>k\<in>set upliftingKeywords. sublist k (uplifting_text w_art4))
   \<and> \<not> isUpliftingNews w_art4
   \<and> isUpliftingNews w_art3"
proof -
  have n: "\<exists>k\<in>set negativeKeywords. sublist k (uplifting_text w_art4)"
    by code_simp
  have p: "\<exists>k\<in>set upliftingKeywords. sublist k (uplifting_text w_art4)"
    by code_simp
  have n3: "\<not> (\<exists>k\<in>set negativeKeywords. sublist k (uplifting_text w_art3))"
    by code_simp
  have p3: "\<exists>k\<in>set upliftingKeywords. sublist k (uplifting_text w_art3)"
    by code_simp
  from isUpliftingNews_negative_first [of w_art4] isUpliftingNews_negative_first [of w_art3]
    n p n3 p3
  show ?thesis by blast
qed

section \<open>Properties of the usage gate\<close>

text \<open>
  Claim C2. When \<open>lastUsageDate\<close> is on another calendar day than today, \<open>canFetchNews\<close>
  sets \<open>dailyUsageCount\<close> to 0 and \<open>lastUsageDate\<close> to now before it evaluates the quota,
  so the check is allowed (a free user of yesterday with count 1 included); the quota is
  always evaluated on the count after the reset; after every call \<open>lastUsageDate\<close> is on
  today's calendar day (for two clock readings on the same day), and a user already on
  today is left unchanged. The document method and the fallback function agree.
\<close>

theorem canFetchNews_rollover:
  "(toDateString (lastUsageDate u) \<noteq> toDateString t1 \<longrightarrow>
      dailyUsageCount (snd (canFetchNews toDateString t1 t2 u)) = 0
      \<and> lastUsageDate (snd (canFetchNews toDateString t1 t2 u)) = t2
      \<and> allowed (fst (canFetchNews toDateString t1 t2 u)))
   \<and> (toDateString (lastUsageDate u) = toDateString t1 \<longrightarrow>
        snd (canFetchNews toDateString t1 t2 u) = u)
   \<and> (allowed (fst (canFetchNews toDateString t1 t2 u)) \<longleftrightarrow>
        isPremium u \<or> dailyUsageCount (snd (canFetchNews toDateString t1 t2 u)) < 1)
   \<and> (toDateString t2 = toDateString t1 \<longrightarrow>
        toDateString (lastUsageDate (snd (canFetchNews toDateString t1 t2 u)))
          = toDateString t1)
   \<and> fallbackAuth_canFetchNews toDateString t1 t2 u = canFetchNews toDateString t1 t2 u"
  by (auto simp: canFetchNews_def fallbackAuth_canFetchNews_def Let_def)

theorem canFetchNews_rollover_witness:
  "utc_day (lastUsageDate w_user) \<noteq> utc_day 172800005
   \<and> utc_day 172800006 = utc_day 172800005
   \<and> \<not> isPremium w_user \<and> dailyUsageCount w_user = 1
   \<and> allowed (fst (canFetchNews utc_day 172800005 172800006 w_user))
   \<and> dailyUsageCount (snd (canFetchNews utc_day 172800005 172800006 w_user)) = 0
   \<and> utc_day (lastUsageDate (snd (canFetchNews utc_day 172800005 172800006 w_user)))
        = utc_day 172800005
   \<and> allowed (fst (fallbackAuth_canFetchNews utc_day 172800005 172800006 w_user))"
proof -
  have h: "utc_day (lastUsageDate w_user) \<noteq> utc_day 172800005"
    by (simp add: utc_day_def w_user_def)
  have d: "utc_day 172800006 = utc_day 172800005"
    by (simp add: utc_day_def)
  have p: "\<not> isPremium w_user \<and> dailyUsageCount w_user = 1"
    by (simp add: w_user_def)
  from canFetchNews_rollover [of utc_day w_user 172800005 172800006] h d p
  show ?thesis by simp
qed

section \<open>Properties of the response assembly\<close>

lemma backfill_loop_length:
  "min 3 (length items + card (item_key ` set cs - seen))
     \<le> length (backfill_loop items seen cs)"
proof (induction cs arbitrary: items seen)
  case Nil
  then show ?case by simp
next
  case (Cons c cs)
  show ?case
  proof (cases "item_key c \<in> seen")
    case True
    then have "item_key ` set (c # cs) - seen = item_key ` set cs - seen" by auto
    with True Cons.IH [of items seen] show ?thesis by (simp add: Let_def)
  next
    case False
    have fin: "finite (item_key ` set cs - insert (item_key c) seen)" by simp
    have "item_key ` set (c # cs) - seen
            = insert (item_key c) (item_key ` set cs - insert (item_key c) seen)"
      using False by auto
    then have card: "card (item_key ` set (c # cs) - seen)
                       = Suc (card (item_key ` set cs - insert (item_key c) seen))"
      using fin by simp
    show ?thesis
    proof (cases "3 \<le> length (items @ [c])")
      case True
      with False show ?thesis by (simp add: Let_def)
    next
      case short: False
      from Cons.IH [of "items @ [c]" "insert (item_key c) seen"] card False short
      show ?thesis by (simp add: Let_def)
    qed
  qed
qed

lemma backfill_ge_three:
  assumes "3 \<le> card (item_key ` set globalCandidates)"
  shows "3 \<le> length (backfill items globalCandidates)"
proof (cases "length items < 3")
  case False
  then show ?thesis by (simp add: backfill_def)
next
  case True
  from assms have ne: "0 < length globalCandidates" by (cases globalCandidates) auto
  let ?have = "set (map item_key items)"
  have "card ?have \<le> length (map item_key items)" by (rule card_length)
  then have "card ?have \<le> length items" by simp
  moreover have "card (item_key ` set globalCandidates) - card ?have
                   \<le> card (item_key ` set globalCandidates - ?have)"
    by (rule diff_card_le_card_Diff) simp
  ultimately have "3 \<le> length items + card (item_key ` set globalCandidates - ?have)"
    using assms by linarith
  with backfill_loop_length [of items globalCandidates ?have] True ne
  show ?thesis by (simp add: backfill_def)
qed

lemma backfill_loop_added:
  "\<exists>added. backfill_loop items seen cs = items @ added
      \<and> set added \<subseteq> set cs
      \<and> distinct (map item_key added)
      \<and> (\<forall>c \<in> set added. item_key c \<notin> seen)"
proof (induction cs arbitrary: items seen)
  case Nil
  then show ?case by simp
next
  case (Cons c cs)
  show ?case
  proof (cases "item_key c \<in> seen")
    case True
    from Cons.IH [of items seen] obtain added where
      "backfill_loop items seen cs = items @ added" "set added \<subseteq> set cs"
      "distinct (map item_key added)" "\<forall>c \<in> set added. item_key c \<notin> seen"
      by blast
    with True show ?thesis by (auto simp: Let_def)
  next
    case False
    show ?thesis
    proof (cases "3 \<le> length (items @ [c])")
      case True
      with False have "backfill_loop items seen (c # cs) = items @ [c]"
        by (simp add: Let_def)
      with False show ?thesis by auto
    next
      case short: False
      from Cons.IH [of "items @ [c]" "insert (item_key c) seen"] obtain added where
        a: "backfill_loop (items @ [c]) (insert (item_key c) seen) cs = (items @ [c]) @ added"
        "set added \<subseteq> set cs" "distinct (map item_key added)"
        "\<forall>x \<in> set added. item_key x \<notin> insert (item_key c) seen"
        by blast
      from False short a(1) have "backfill_loop items seen (c # cs) = items @ (c # added)"
        by (simp add: Let_def)
      moreover from a(2) have "set (c # added) \<subseteq> set (c # cs)" by auto
      moreover from a(3,4) have "distinct (map item_key (c # added))" by auto
      moreover from False a(4) have "\<forall>x \<in> set (c # added). item_key x \<notin> seen" by auto
      ultimately show ?thesis by blast
    qed
  qed
qed

lemma backfill_loop_le:
  "length items < 3 \<Longrightarrow> length (backfill_loop items seen cs) \<le> 3"
proof (induction cs arbitrary: items seen)
  case Nil
  then show ?case by simp
next
  case (Cons c cs)
  show ?case
  proof (cases "item_key c \<in> seen")
    case True
    with Cons show ?thesis by (simp add: Let_def)
  next
    case False
    show ?thesis
    proof (cases "3 \<le> length (items @ [c])")
      case True
      with False Cons.prems show ?thesis by (simp add: Let_def)
    next
      case short: False
      then have "length (items @ [c]) < 3" by simp
      from Cons.IH [OF this, of "insert (item_key c) seen"] False short
      show ?thesis by (simp add: Let_def)
    qed
  qed
qed

lemma backfill_added:
  "\<exists>added. backfill items pool = items @ added
      \<and> set added \<subseteq> set pool
      \<and> distinct (map item_key added)
      \<and> (\<forall>c \<in> set added. item_key c \<notin> item_key ` set items)"
proof (cases "length items < 3 \<and> 0 < length pool")
  case True
  with backfill_loop_added [of items "set (map item_key items)" pool]
  show ?thesis by (simp add: backfill_def)
next
  case False
  then have "backfill items pool = items @ []" by (auto simp: backfill_def)
  then show ?thesis by (intro exI [of _ "[]"]) simp
qed

lemma backfill_le: "length items < 3 \<Longrightarrow> length (backfill items pool) \<le> 3"
  using backfill_loop_le [of items "set (map item_key items)" pool]
  by (simp add: backfill_def)

text \<open>
  Claim C4. If the candidate pool holds at least three entries that are distinct under the
  url-or-id key, the items list after the backfill has at least three entries, whatever
  items were emitted before: when fewer than three items were emitted, exactly three
  result. The backfill only appends pool entries, each with a key that no emitted item and
  no earlier appended entry has.
\<close>

theorem backfill_at_least_three:
  assumes "3 \<le> card (item_key ` set globalCandidates)"
  shows "3 \<le> length (backfill items globalCandidates)
         \<and> (length items < 3 \<longrightarrow> length (backfill items globalCandidates) = 3)
         \<and> (\<exists>added. backfill items globalCandidates = items @ added
               \<and> set added \<subseteq> set globalCandidates
               \<and> distinct (map item_key added)
               \<and> (\<forall>c \<in> set added. item_key c \<notin> item_key ` set items))"
proof -
  have ge: "3 \<le> length (backfill items globalCandidates)"
    using assms by (rule backfill_ge_three)
  have "length items < 3 \<longrightarrow> length (backfill items globalCandidates) \<le> 3"
    using backfill_le by blast
  with ge have eq: "length items < 3 \<longrightarrow> length (backfill items globalCandidates) = 3"
    by auto
  from ge eq backfill_added [of items globalCandidates] show ?thesis by blast
qed

theorem backfill_at_least_three_witness:
  "3 \<le> card (item_key ` set w_pool)
   \<and> 3 \<le> length (backfill [w_item ''chess-0-1'' ''u1''] w_pool)
   \<and> backfill [w_item ''chess-0-1'' ''u1''] w_pool
       = [w_item ''chess-0-1'' ''u1'', w_item ''chess-cand-2-1'' [], w_item ''chess-cand-3-1'' ''u3'']"
proof -
  have h: "3 \<le> card (item_key ` set w_pool)"
    by code_simp
  have e: "backfill [w_item ''chess-0-1'' ''u1''] w_pool
       = [w_item ''chess-0-1'' ''u1'', w_item ''chess-cand-2-1'' [], w_item ''chess-cand-3-1'' ''u3'']"
    by code_simp
  from backfill_at_least_three [OF h, of "[w_item ''chess-0-1'' ''u1'']"] h e
  show ?thesis by simp
qed

section \<open>Properties of the cache layer\<close>

lemma cache_get_Inr: "\<exists>r. cache_get json c key = Inr r"
  by (auto simp: cache_get_def try_catch_def split: sum.splits option.splits bool.splits)

lemma cache_set_Inr: "\<exists>c'. cache_set json c key v ttl = Inr c'"
  by (auto simp: cache_set_def try_catch_def split: sum.splits option.splits bool.splits)

lemma cache_del_Inr: "\<exists>c'. cache_del c key = Inr c'"
  by (auto simp: cache_del_def try_catch_def split: sum.splits option.splits bool.splits)

text \<open>
  Claim C9. \<open>get\<close>, \<open>set\<close> and \<open>del\<close> of the cache never throw, for any key, value and
  TTL and whatever the Redis client and the JSON codec do: when the backend fails,
  \<open>get\<close> returns \<open>null\<close> and \<open>set\<close> and \<open>del\<close> leave the cache as it was.
\<close>

theorem cache_never_throws:
  "(\<exists>r. cache_get json c key = Inr r)
   \<and> (\<exists>c'. cache_set json c key v ttl = Inr c')
   \<and> (\<exists>c'. cache_del c key = Inr c')
   \<and> (\<forall>cl e. isConnected c \<and> client c = Some cl \<and> redis_get cl key = Inl e
         \<longrightarrow> cache_get json c key = Inr None)
   \<and> (\<forall>cl s e. isConnected c \<and> client c = Some cl \<and> redis_get cl key = Inr (Some s)
           \<and> s \<noteq> [] \<and> parse json s = Inl e
         \<longrightarrow> cache_get json c key = Inr None)
   \<and> (\<forall>cl e. isConnected c \<and> client c = Some cl \<and> stringify json v = Inl e
         \<longrightarrow> cache_set json c key v ttl = Inr c)
   \<and> (\<forall>cl s e. isConnected c \<and> client c = Some cl \<and> stringify json v = Inr s
           \<and> redis_setEx cl key ttl s = Inl e
         \<longrightarrow> cache_set json c key v ttl = Inr c)
   \<and> (\<forall>cl e. isConnected c \<and> client c = Some cl \<and> redis_del cl key = Inl e
         \<longrightarrow> cache_del c key = Inr c)"
proof -
  have g: "\<exists>r. cache_get json c key = Inr r" by (rule cache_get_Inr)
  have s: "\<exists>c'. cache_set json c key v ttl = Inr c'" by (rule cache_set_Inr)
  have d: "\<exists>c'. cache_del c key = Inr c'" by (rule cache_del_Inr)
  have g1: "\<forall>cl e. isConnected c \<and> client c = Some cl \<and> redis_get cl key = Inl e
         \<longrightarrow> cache_get json c key = Inr None"
    by (simp add: cache_get_def try_catch_def)
  have g2: "\<forall>cl s e. isConnected c \<and> client c = Some cl \<and> redis_get cl key = Inr (Some s)
           \<and> s \<noteq> [] \<and> parse json s = Inl e
         \<longrightarrow> cache_get json c key = Inr None"
    by (simp add: cache_get_def try_catch_def)
  have s1: "\<forall>cl e. isConnected c \<and> client c = Some cl \<and> stringify json v = Inl e
         \<longrightarrow> cache_set json c key v ttl = Inr c"
    by (simp add: cache_set_def try_catch_def)
  have s2: "\<forall>cl s e. isConnected c \<and> client c = Some cl \<and> stringify json v = Inr s
           \<and> redis_setEx cl key ttl s = Inl e
         \<longrightarrow> cache_set json c key v ttl = Inr c"
    by (simp add: cache_set_def try_catch_def)
  have d1: "\<forall>cl e. isConnected c \<and> client c = Some cl \<and> redis_del cl key = Inl e
         \<longrightarrow> cache_del c key = Inr c"
    by (simp add: cache_del_def try_catch_def)
  from g s d g1 g2 s1 s2 d1 show ?thesis by blast
qed

theorem cache_never_throws_witness:
  "isConnected w_redis_cache \<and> client w_redis_cache = Some w_client
   \<and> redis_get w_client ''k'' = Inl (Redis_failure ''down'')
   \<and> stringify w_json \<lparr>articles = [], result_note = None\<rparr> = Inr ''{}''
   \<and> redis_setEx w_client ''k'' 900 ''{}'' = Inl (Redis_failure ''down'')
   \<and> redis_del w_client ''k'' = Inl (Redis_failure ''down'')
   \<and> cache_get w_json w_redis_cache ''k'' = Inr None
   \<and> cache_set w_json w_redis_cache ''k'' \<lparr>articles = [], result_note = None\<rparr> 900
        = Inr w_redis_cache
   \<and> cache_del w_redis_cache ''k'' = Inr w_redis_cache"
proof -
  have c: "isConnected w_redis_cache \<and> client w_redis_cache = Some w_client"
    by (simp add: w_redis_cache_def)
  have f: "redis_get w_client ''k'' = Inl (Redis_failure ''down'')
           \<and> redis_setEx w_client ''k'' 900 ''{}'' = Inl (Redis_failure ''down'')
           \<and> redis_del w_client ''k'' = Inl (Redis_failure ''down'')"
    by (simp add: w_client_def)
  have j: "stringify w_json \<lparr>articles = [], result_note = None\<rparr> = Inr ''{}''"
    by (simp add: w_json_def)
  from cache_never_throws
         [of w_json w_redis_cache "''k''" "\<lparr>articles = [], result_note = None\<rparr>" 900] c f j
  show ?thesis by blast
qed

section \<open>Properties of the fetcher and the summarizer\<close>

text \<open>
  Claim C5. Without a provider key, for every topic and geography \<open>fetchArticlesForTopic\<close>
  returns the empty article list with the note \<open>Missing NEWSAPI_KEY\<close> and does not throw;
  the relevance filter maps the empty list to the empty list; and \<open>summarizeArticles\<close> on the
  empty list returns the \<open>No recent coverage found for ...\<close> message and makes no
  completion request.
\<close>

theorem missing_key_scenario:
  "fetchArticlesForTopic (e\<lparr>NEWSAPI_KEY := []\<rparr>) json cache topic g maxResults
     = (Inr \<lparr>articles = [], result_note = Some ''Missing NEWSAPI_KEY''\<rparr>, cache)
   \<and> filterRelevantArticles topic g [] minCount = []
   \<and> summarizeArticles key llm topic g [] wordCount goodNewsOnly
       = (''No recent coverage found for '' @ summary_base topic g @ ''.'', [])"
  by (simp add: fetchArticlesForTopic_def filterRelevantArticles_def summarizeArticles_def
      slice0_def candidates_def Let_def)

theorem missing_key_scenario_witness:
  "fetchArticlesForTopic (w_env\<lparr>NEWSAPI_KEY := []\<rparr>) w_json w_cache ''local'' None 6
     = (Inr \<lparr>articles = [], result_note = Some ''Missing NEWSAPI_KEY''\<rparr>, w_cache)
   \<and> filterRelevantArticles ''local'' None [] 6 = []
   \<and> summarizeArticles ''sk'' w_llm ''local'' None [] 200 False
       = (''No recent coverage found for local.'', [])"
proof -
  have b: "summary_base ''local'' None = ''local''" by code_simp
  from missing_key_scenario [of w_env w_json w_cache "''local''" None 6 6 "''sk''" w_llm 200 False] b
  show ?thesis by simp
qed

lemma fetchArticlesForTopic_miss:
  assumes "NEWSAPI_KEY e \<noteq> []"
    and "cache_get json cache (getNewsKey topic g (pageSize_of maxResults)) = Inr None"
    and "fetch_branches (http e) topic g maxResults = Inr raws"
  shows "\<exists>c'. cache_set json cache (getNewsKey topic g (pageSize_of maxResults))
                 \<lparr>articles = map normalizeArticle raws, result_note = None\<rparr> 900 = Inr c'
              \<and> fetchArticlesForTopic e json cache topic g maxResults
                  = (Inr \<lparr>articles = map normalizeArticle raws, result_note = None\<rparr>, c')"
proof -
  obtain c' where c': "cache_set json cache (getNewsKey topic g (pageSize_of maxResults))
                 \<lparr>articles = map normalizeArticle raws, result_note = None\<rparr> 900 = Inr c'"
    using cache_set_Inr [of json cache "getNewsKey topic g (pageSize_of maxResults)"
                           "\<lparr>articles = map normalizeArticle raws, result_note = None\<rparr>" 900]
    by (elim exE)
  with assms show ?thesis
    by (simp add: fetchArticlesForTopic_def Let_def)
qed

lemma or_str_Nil: "or_str x [] = (case x of None \<Rightarrow> [] | Some s \<Rightarrow> s)"
  by (simp add: or_str_def split: option.splits)

text \<open>
  Claim C3, as amended. \<open>fetchArticlesForTopic\<close> does not deduplicate. On a cache miss the
  result it caches and returns holds one article per merged provider record, in the same
  order, and its urls are the urls of those records (the empty string for a missing one);
  so two returned articles share a url whenever two merged records do.
\<close>

theorem fetchArticlesForTopic_no_dedup:
  assumes "NEWSAPI_KEY e \<noteq> []"
    and "cache_get json cache (getNewsKey topic g (pageSize_of maxResults)) = Inr None"
    and "fetch_branches (http e) topic g maxResults = Inr raws"
  shows "\<exists>r c'. fetchArticlesForTopic e json cache topic g maxResults = (Inr r, c')
           \<and> cache_set json cache (getNewsKey topic g (pageSize_of maxResults)) r 900 = Inr c'
           \<and> length (articles r) = length raws
           \<and> map url (articles r) = map (\<lambda>a. case raw_url a of None \<Rightarrow> [] | Some u \<Rightarrow> u) raws"
proof -
  from fetchArticlesForTopic_miss [OF assms] obtain c' where
    "cache_set json cache (getNewsKey topic g (pageSize_of maxResults))
        \<lparr>articles = map normalizeArticle raws, result_note = None\<rparr> 900 = Inr c'"
    and "fetchArticlesForTopic e json cache topic g maxResults
           = (Inr \<lparr>articles = map normalizeArticle raws, result_note = None\<rparr>, c')"
    by blast
  moreover have "map url (map normalizeArticle raws)
                   = map (\<lambda>a. case raw_url a of None \<Rightarrow> [] | Some u \<Rightarrow> u) raws"
    by (simp add: normalizeArticle_def or_str_Nil)
  ultimately show ?thesis by simp
qed

text \<open>
  The claim as stated fails: for the local topic with a city, a region and a country, a
  provider that answers every query with the same headline yields a returned list in
  which two articles share the url \<open>u1\<close>.
\<close>

theorem fetchArticlesForTopic_dedup_counterexample:
  "fst (fetchArticlesForTopic w_env w_json w_cache ''local'' (Some w_geo) 2)
     = Inr \<lparr>articles = [normalizeArticle w_raw, normalizeArticle w_raw], result_note = None\<rparr>
   \<and> url (normalizeArticle w_raw) = ''u1''
   \<and> \<not> distinct (map url [normalizeArticle w_raw, normalizeArticle w_raw])"
proof -
  have "fst (fetchArticlesForTopic w_env w_json w_cache ''local'' (Some w_geo) 2)
     = Inr \<lparr>articles = [normalizeArticle w_raw, normalizeArticle w_raw], result_note = None\<rparr>"
    by code_simp
  moreover have "url (normalizeArticle w_raw) = ''u1''"
    by code_simp
  ultimately show ?thesis by simp
qed

theorem fetchArticlesForTopic_no_dedup_witness:
  "NEWSAPI_KEY w_env \<noteq> []
   \<and> cache_get w_json w_cache (getNewsKey ''local'' (Some w_geo) (pageSize_of 2)) = Inr None
   \<and> fetch_branches (http w_env) ''local'' (Some w_geo) 2 = Inr [w_raw, w_raw]
   \<and> (\<exists>r c'. fetchArticlesForTopic w_env w_json w_cache ''local'' (Some w_geo) 2 = (Inr r, c')
         \<and> map url (articles r) = [''u1'', ''u1''])"
proof -
  have k: "NEWSAPI_KEY w_env \<noteq> []" by (simp add: w_env_def)
  have m: "cache_get w_json w_cache (getNewsKey ''local'' (Some w_geo) (pageSize_of 2)) = Inr None"
    by (simp add: cache_get_def try_catch_def w_cache_def)
  have b: "fetch_branches (http w_env) ''local'' (Some w_geo) 2 = Inr [w_raw, w_raw]"
    by code_simp
  have u: "raw_url w_raw = Some ''u1''" by (simp add: w_raw_def)
  from fetchArticlesForTopic_no_dedup [OF k m b] k m b u show ?thesis by auto
qed

lemma length_local_promises:
  "length (local_promises cityName regionName cc pageSize)
     = (if cityName \<noteq> [] then 3 else 0) + (if regionName \<noteq> [] then 3 else 0)
       + (if cc \<noteq> [] then 1 else 0) + 1"
  by (simp add: local_promises_def)

lemma pageSize_of_range: "1 \<le> pageSize_of m \<and> pageSize_of m \<le> 50"
  by (simp add: pageSize_of_def)

lemma pageSize_of_le: "1 \<le> m \<Longrightarrow> pageSize_of m \<le> m"
  by (simp add: pageSize_of_def)

lemma fetch_branches_local:
  "toLowerCase topic = ''local'' \<Longrightarrow>
   fetch_branches h topic g maxResults
     = Inr (take (nat (pageSize_of maxResults))
         (fulfilled_values (map (run_call h)
            (local_promises (or_str (geo_prop g city) [])
               (or_str (geo_prop g region) (or_str (geo_prop g state) []))
               (or_str (geo_prop g country) (or_str (geo_prop g countryCode) []))
               (pageSize_of maxResults)))))"
  by (simp add: fetch_branches_def Let_def)

text \<open>
  Claim C6, as amended. For the local topic the fetcher starts three city queries when a
  city is present, three region queries when a region is present, one country query when a
  country code is present and one generic fallback query: at most 8 in total. The merged
  list of the fulfilled branches is cut to the page size, which is \<open>maxResults\<close> clamped to
  1..50 (5 when \<open>maxResults\<close> is 0), hence to at most \<open>maxResults\<close> whenever
  \<open>maxResults\<close> is at least 1.
\<close>

theorem local_branch_queries:
  "length (local_promises cityName regionName cc pageSize)
     = (if cityName \<noteq> [] then 3 else 0) + (if regionName \<noteq> [] then 3 else 0)
       + (if cc \<noteq> [] then 1 else 0) + 1
   \<and> length (local_promises cityName regionName cc pageSize) \<le> 8
   \<and> (toLowerCase topic = ''local'' \<longrightarrow>
        (\<exists>as. fetch_branches h topic g maxResults = Inr as
           \<and> as = take (nat (pageSize_of maxResults))
                  (fulfilled_values (map (run_call h)
                     (local_promises (or_str (geo_prop g city) [])
                        (or_str (geo_prop g region) (or_str (geo_prop g state) []))
                        (or_str (geo_prop g country) (or_str (geo_prop g countryCode) []))
                        (pageSize_of maxResults))))
           \<and> int (length as) \<le> pageSize_of maxResults
           \<and> 1 \<le> pageSize_of maxResults \<and> pageSize_of maxResults \<le> 50
           \<and> (1 \<le> maxResults \<longrightarrow> int (length as) \<le> maxResults)))"
proof -
  have n: "length (local_promises cityName regionName cc pageSize)
     = (if cityName \<noteq> [] then 3 else 0) + (if regionName \<noteq> [] then 3 else 0)
       + (if cc \<noteq> [] then 1 else 0) + 1"
    by (rule length_local_promises)
  then have le: "length (local_promises cityName regionName cc pageSize) \<le> 8"
    by (simp split: if_splits)
  have loc: "toLowerCase topic = ''local'' \<longrightarrow>
        (\<exists>as. fetch_branches h topic g maxResults = Inr as
           \<and> as = take (nat (pageSize_of maxResults))
                  (fulfilled_values (map (run_call h)
                     (local_promises (or_str (geo_prop g city) [])
                        (or_str (geo_prop g region) (or_str (geo_prop g state) []))
                        (or_str (geo_prop g country) (or_str (geo_prop g countryCode) []))
                        (pageSize_of maxResults))))
           \<and> int (length as) \<le> pageSize_of maxResults
           \<and> 1 \<le> pageSize_of maxResults \<and> pageSize_of maxResults \<le> 50
           \<and> (1 \<le> maxResults \<longrightarrow> int (length as) \<le> maxResults))"
  proof
    assume l: "toLowerCase topic = ''local''"
    let ?as = "take (nat (pageSize_of maxResults))
                  (fulfilled_values (map (run_call h)
                     (local_promises (or_str (geo_prop g city) [])
                        (or_str (geo_prop g region) (or_str (geo_prop g state) []))
                        (or_str (geo_prop g country) (or_str (geo_prop g countryCode) []))
                        (pageSize_of maxResults))))"
    have r: "1 \<le> pageSize_of maxResults \<and> pageSize_of maxResults \<le> 50"
      by (rule pageSize_of_range)
    have "length ?as \<le> nat (pageSize_of maxResults)" by simp
    with r have b: "int (length ?as) \<le> pageSize_of maxResults" by linarith
    have m: "1 \<le> maxResults \<longrightarrow> int (length ?as) \<le> maxResults"
      using b pageSize_of_le [of maxResults] by linarith
    from fetch_branches_local [OF l, of h g maxResults] r b m
    show "\<exists>as. fetch_branches h topic g maxResults = Inr as
           \<and> as = ?as
           \<and> int (length as) \<le> pageSize_of maxResults
           \<and> 1 \<le> pageSize_of maxResults \<and> pageSize_of maxResults \<le> 50
           \<and> (1 \<le> maxResults \<longrightarrow> int (length as) \<le> maxResults)"
      by blast
  qed
  from n le loc show ?thesis by blast
qed

text \<open>
  The claim as stated fails: with a city, a region and a country code there are 8 queries,
  not at most 7; and with \<open>maxResults = 0\<close> the page size is 5, so one article is returned
  although \<open>maxResults\<close> is 0.
\<close>

theorem local_branch_queries_counterexample:
  "or_str (geo_prop (Some w_geo) city) [] = ''Rome''
   \<and> or_str (geo_prop (Some w_geo) region) (or_str (geo_prop (Some w_geo) state) []) = ''Lazio''
   \<and> or_str (geo_prop (Some w_geo) country) (or_str (geo_prop (Some w_geo) countryCode) []) = ''IT''
   \<and> length (local_promises ''Rome'' ''Lazio'' ''IT'' (pageSize_of 6)) = 8
   \<and> \<not> length (local_promises ''Rome'' ''Lazio'' ''IT'' (pageSize_of 6)) \<le> 7
   \<and> fetch_branches (http w_env) ''local'' None 0 = Inr [w_raw]
   \<and> \<not> int (length [w_raw]) \<le> 0"
proof -
  have g: "or_str (geo_prop (Some w_geo) city) [] = ''Rome''
   \<and> or_str (geo_prop (Some w_geo) region) (or_str (geo_prop (Some w_geo) state) []) = ''Lazio''
   \<and> or_str (geo_prop (Some w_geo) country) (or_str (geo_prop (Some w_geo) countryCode) []) = ''IT''"
    by (simp add: w_geo_def geo_prop_def or_str_def)
  have n: "length (local_promises ''Rome'' ''Lazio'' ''IT'' (pageSize_of 6)) = 8"
    by (simp add: local_promises_def)
  have f: "fetch_branches (http w_env) ''local'' None 0 = Inr [w_raw]"
    by code_simp
  from g n f show ?thesis by simp
qed

theorem local_branch_queries_witness:
  "toLowerCase ''local'' = ''local''
   \<and> (1::int) \<le> 2
   \<and> length (local_promises ''Rome'' ''Lazio'' ''IT'' 2) \<le> 8
   \<and> (\<exists>as. fetch_branches (http w_env) ''local'' (Some w_geo) 2 = Inr as
         \<and> as = [w_raw, w_raw] \<and> int (length as) \<le> 2)"
proof -
  have l: "toLowerCase ''local'' = ''local''" by code_simp
  have f: "fetch_branches (http w_env) ''local'' (Some w_geo) 2 = Inr [w_raw, w_raw]"
    by code_simp
  note t = local_branch_queries [of "''Rome''" "''Lazio''" "''IT''" 2 "''local''" "http w_env"
         "Some w_geo" 2]
  from t have n: "length (local_promises ''Rome'' ''Lazio'' ''IT'' 2) \<le> 8" by blast
  from t l obtain as where
    as: "fetch_branches (http w_env) ''local'' (Some w_geo) 2 = Inr as"
    and b: "1 \<le> (2::int) \<longrightarrow> int (length as) \<le> 2"
    by blast
  from as f have "as = [w_raw, w_raw]" by simp
  with l n as b show ?thesis by simp
qed

text \<open>
  Claim C10. Every article that \<open>fetchArticlesForTopic\<close> returns is normalized. Without a
  provider key the list is empty; on a cache hit the cached result is returned as it is;
  on a miss the list has one article per merged raw record, each of whose six string fields
  is the raw record's field, or the empty string where the raw field is missing, with
  \<open>source\<close> taken from the \<open>name\<close> of the raw \<open>source\<close> object.
\<close>

theorem fetchArticlesForTopic_normalized:
  "(NEWSAPI_KEY e = [] \<longrightarrow>
      fst (fetchArticlesForTopic e json cache topic g maxResults)
        = Inr \<lparr>articles = [], result_note = Some ''Missing NEWSAPI_KEY''\<rparr>)
   \<and> (NEWSAPI_KEY e \<noteq> []
        \<and> cache_get json cache (getNewsKey topic g (pageSize_of maxResults)) = Inr (Some cached)
       \<longrightarrow> fst (fetchArticlesForTopic e json cache topic g maxResults) = Inr cached)
   \<and> (NEWSAPI_KEY e \<noteq> []
        \<and> cache_get json cache (getNewsKey topic g (pageSize_of maxResults)) = Inr None
        \<and> fetch_branches (http e) topic g maxResults = Inr raws
       \<longrightarrow> (\<exists>r. fst (fetchArticlesForTopic e json cache topic g maxResults) = Inr r
              \<and> length (articles r) = length raws
              \<and> (\<forall>i < length raws.
                    title (articles r ! i)
                      = (case raw_title (raws ! i) of None \<Rightarrow> [] | Some s \<Rightarrow> s)
                  \<and> description (articles r ! i)
                      = (case raw_description (raws ! i) of None \<Rightarrow> [] | Some s \<Rightarrow> s)
                  \<and> url (articles r ! i)
                      = (case raw_url (raws ! i) of None \<Rightarrow> [] | Some s \<Rightarrow> s)
                  \<and> source (articles r ! i)
                      = (case raw_source (raws ! i) of
                           None \<Rightarrow> []
                         | Some src \<Rightarrow> (case source_name src of None \<Rightarrow> [] | Some n \<Rightarrow> n))
                  \<and> publishedAt (articles r ! i)
                      = (case raw_publishedAt (raws ! i) of None \<Rightarrow> [] | Some s \<Rightarrow> s)
                  \<and> urlToImage (articles r ! i)
                      = (case raw_urlToImage (raws ! i) of None \<Rightarrow> [] | Some s \<Rightarrow> s))))"
proof -
  have nokey: "NEWSAPI_KEY e = [] \<longrightarrow>
      fst (fetchArticlesForTopic e json cache topic g maxResults)
        = Inr \<lparr>articles = [], result_note = Some ''Missing NEWSAPI_KEY''\<rparr>"
    by (simp add: fetchArticlesForTopic_def Let_def)
  have hit: "NEWSAPI_KEY e \<noteq> []
        \<and> cache_get json cache (getNewsKey topic g (pageSize_of maxResults)) = Inr (Some cached)
       \<longrightarrow> fst (fetchArticlesForTopic e json cache topic g maxResults) = Inr cached"
    by (simp add: fetchArticlesForTopic_def Let_def)
  have miss: "NEWSAPI_KEY e \<noteq> []
        \<and> cache_get json cache (getNewsKey topic g (pageSize_of maxResults)) = Inr None
        \<and> fetch_branches (http e) topic g maxResults = Inr raws
       \<longrightarrow> (\<exists>r. fst (fetchArticlesForTopic e json cache topic g maxResults) = Inr r
              \<and> length (articles r) = length raws
              \<and> (\<forall>i < length raws.
                    title (articles r ! i)
                      = (case raw_title (raws ! i) of None \<Rightarrow> [] | Some s \<Rightarrow> s)
                  \<and> description (articles r ! i)
                      = (case raw_description (raws ! i) of None \<Rightarrow> [] | Some s \<Rightarrow> s)
                  \<and> url (articles r ! i)
                      = (case raw_url (raws ! i) of None \<Rightarrow> [] | Some s \<Rightarrow> s)
                  \<and> source (articles r ! i)
                      = (case raw_source (raws ! i) of
                           None \<Rightarrow> []
                         | Some src \<Rightarrow> (case source_name src of None \<Rightarrow> [] | Some n \<Rightarrow> n))
                  \<and> publishedAt (articles r ! i)
                      = (case raw_publishedAt (raws ! i) of None \<Rightarrow> [] | Some s \<Rightarrow> s)
                  \<and> urlToImage (articles r ! i)
                      = (case raw_urlToImage (raws ! i) of None \<Rightarrow> [] | Some s \<Rightarrow> s)))"
  proof
    assume a: "NEWSAPI_KEY e \<noteq> []
        \<and> cache_get json cache (getNewsKey topic g (pageSize_of maxResults)) = Inr None
        \<and> fetch_branches (http e) topic g maxResults = Inr raws"
    then obtain c' where
      "fetchArticlesForTopic e json cache topic g maxResults
         = (Inr \<lparr>articles = map normalizeArticle raws, result_note = None\<rparr>, c')"
      using fetchArticlesForTopic_miss [of e json cache topic g maxResults raws] by blast
    then have "fst (fetchArticlesForTopic e json cache topic g maxResults)
                 = Inr \<lparr>articles = map normalizeArticle raws, result_note = None\<rparr>"
      by simp
    then show "\<exists>r. fst (fetchArticlesForTopic e json cache topic g maxResults) = Inr r
              \<and> length (articles r) = length raws
              \<and> (\<forall>i < length raws.
                    title (articles r ! i)
                      = (case raw_title (raws ! i) of None \<Rightarrow> [] | Some s \<Rightarrow> s)
                  \<and> description (articles r ! i)
                      = (case raw_description (raws ! i) of None \<Rightarrow> [] | Some s \<Rightarrow> s)
                  \<and> url (articles r ! i)
                      = (case raw_url (raws ! i) of None \<Rightarrow> [] | Some s \<Rightarrow> s)
                  \<and> source (articles r ! i)
                      = (case raw_source (raws ! i) of
                           None \<Rightarrow> []
                         | Some src \<Rightarrow> (case source_name src of None \<Rightarrow> [] | Some n \<Rightarrow> n))
                  \<and> publishedAt (articles r ! i)
                      = (case raw_publishedAt (raws ! i) of None \<Rightarrow> [] | Some s \<Rightarrow> s)
                  \<and> urlToImage (articles r ! i)
                      = (case raw_urlToImage (raws ! i) of None \<Rightarrow> [] | Some s \<Rightarrow> s))"
      by (simp add: normalizeArticle_def or_str_Nil split: option.splits)
  qed
  from nokey hit miss show ?thesis by blast
qed

theorem fetchArticlesForTopic_normalized_witness:
  "NEWSAPI_KEY w_env \<noteq> []
   \<and> cache_get w_json w_cache (getNewsKey ''local'' (Some w_geo) (pageSize_of 2)) = Inr None
   \<and> fetch_branches (http w_env) ''local'' (Some w_geo) 2 = Inr [w_raw, w_raw]
   \<and> (\<exists>r. fst (fetchArticlesForTopic w_env w_json w_cache ''local'' (Some w_geo) 2) = Inr r
         \<and> length (articles r) = 2
         \<and> title (articles r ! 0) = ''Rome fair''
         \<and> description (articles r ! 0) = []
         \<and> source (articles r ! 0) = ''Wire'')"
proof -
  have k: "NEWSAPI_KEY w_env \<noteq> []" by (simp add: w_env_def)
  have m: "cache_get w_json w_cache (getNewsKey ''local'' (Some w_geo) (pageSize_of 2)) = Inr None"
    by (simp add: cache_get_def try_catch_def w_cache_def)
  have b: "fetch_branches (http w_env) ''local'' (Some w_geo) 2 = Inr [w_raw, w_raw]"
    by code_simp
  have u: "raw_title w_raw = Some ''Rome fair'' \<and> raw_description w_raw = None
           \<and> raw_source w_raw = Some \<lparr>source_name = Some ''Wire''\<rparr>"
    by (simp add: w_raw_def)
  from fetchArticlesForTopic_normalized
         [of w_env w_json w_cache "''local''" "Some w_geo" 2 "\<lparr>articles = [], result_note = None\<rparr>" "[w_raw, w_raw]"] k m b
  obtain r where r: "fst (fetchArticlesForTopic w_env w_json w_cache ''local'' (Some w_geo) 2) = Inr r"
    "length (articles r) = 2"
    "title (articles r ! 0) = (case raw_title w_raw of None \<Rightarrow> [] | Some s \<Rightarrow> s)"
    "description (articles r ! 0) = (case raw_description w_raw of None \<Rightarrow> [] | Some s \<Rightarrow> s)"
    "source (articles r ! 0) = (case raw_source w_raw of
                           None \<Rightarrow> []
                         | Some src \<Rightarrow> (case source_name src of None \<Rightarrow> [] | Some n \<Rightarrow> n))"
    by auto
  with u k m b show ?thesis by auto
qed

end
